theory Spec2Isabelle
  imports Main "HOL-Library.Multiset"
begin

section \<open>Data model\<close>

text \<open>
  The declarations of \<^verbatim>\<open>types/quiz\<close> are not among the sources; the fields below are the
  ones the two components read and write. A field that the code treats as possibly absent
  (\<^verbatim>\<open>a.order || 0\<close>, \<^verbatim>\<open>question.explanation || ''\<close>, \<^verbatim>\<open>question.imageUrls && ...\<close>,
  \<^verbatim>\<open>quiz.timeLimit || 30\<close>) is an option, \<open>None\<close> standing for \<^verbatim>\<open>undefined\<close>. Numbers
  are integers: the components only copy them, compare them with zero or set them to a
  list length or an index.
\<close>

record choice =
  c_id :: string
  c_text :: string
  c_isCorrect :: bool
  c_min :: "int option"
  c_max :: "int option"
  c_correctValue :: "int option"
  c_order :: "int option"

record question =
  q_id :: string
  q_type :: string
  q_text :: string
  q_explanation :: "string option"
  q_imageUrls :: "string list option"
  q_choices :: "choice list"

datatype quiz_status = Draft | Published

record quiz =
  quiz_id :: "string option"
  quiz_title :: string
  quiz_language :: string
  quiz_type :: string
  quiz_status :: quiz_status
  quiz_timeLimit :: "int option"
  quiz_points :: "int option"
  quiz_updatedAt :: nat
  quiz_questions :: "question list"

section \<open>PuzzleEditor\<close>

text \<open>
  Each handler is given the \<^verbatim>\<open>choices\<close> prop and returns what it passes to
  \<^verbatim>\<open>onChange\<close>. The value of \<^verbatim>\<open>crypto.randomUUID()\<close> is the parameter \<open>uuid\<close>.
\<close>

definition handleAddChoice :: "string \<Rightarrow> choice list \<Rightarrow> choice list" where
  "handleAddChoice uuid choices =
     (let newChoice = \<lparr>c_id = uuid, c_text = [], c_isCorrect = True,
                       c_min = None, c_max = None, c_correctValue = None,
                       c_order = Some (int (length choices))\<rparr>
      in choices @ [newChoice])"

definition handleDeleteChoice :: "string \<Rightarrow> choice list \<Rightarrow> choice list" where
  "handleDeleteChoice choiceId choices =
     map (\<lambda>(index, choice). choice\<lparr>c_order := Some (int index)\<rparr>)
       (enumerate 0 (filter (\<lambda>choice. c_id choice \<noteq> choiceId) choices))"

text \<open>
  \<^verbatim>\<open>Array.prototype.splice\<close> on in-range or too large non-negative indices: a start
  beyond the end is the end, and a count beyond the end removes what is there.
\<close>

definition splice_delete :: "nat \<Rightarrow> nat \<Rightarrow> 'a list \<Rightarrow> 'a list \<times> 'a list" where
  "splice_delete start cnt xs =
     (take cnt (drop start xs), take start xs @ drop (start + cnt) xs)"

definition splice_insert :: "nat \<Rightarrow> 'a \<Rightarrow> 'a list \<Rightarrow> 'a list" where
  "splice_insert start x xs = take start xs @ x # drop start xs"

text \<open>
  \<^verbatim>\<open>handleDrop\<close>: the result \<open>None\<close> is the early return (\<^verbatim>\<open>onChange\<close> is not called).
  The array passed to \<^verbatim>\<open>onChange\<close> may hold \<^verbatim>\<open>undefined\<close>: when nothing is removed,
  the destructured \<^verbatim>\<open>draggedChoice\<close> is \<^verbatim>\<open>undefined\<close> and is inserted all the same. So the
  elements are options, \<open>None\<close> standing for \<^verbatim>\<open>undefined\<close>.
\<close>

definition handleDrop :: "nat option \<Rightarrow> nat \<Rightarrow> choice list \<Rightarrow> choice option list option" where
  "handleDrop draggedIndex dropIndex choices =
     (case draggedIndex of
        None \<Rightarrow> None
      | Some d \<Rightarrow>
          (let newChoices = map Some choices;
               (removed, newChoices1) = splice_delete d 1 newChoices;
               draggedChoice = (case removed of [] \<Rightarrow> None | x # _ \<Rightarrow> x)
           in Some (splice_insert dropIndex draggedChoice newChoices1)))"

text \<open>
  \<^verbatim>\<open>handleShuffle\<close>: \<open>rnd i\<close> is the value of the \<open>i\<close>-th call of \<^verbatim>\<open>Math.random()\<close>, one
  call per element in list order. The keys are of any linearly ordered type. The sort is
  the stable ascending sort by key.
\<close>

definition handleShuffle :: "(nat \<Rightarrow> 'k::linorder) \<Rightarrow> choice list \<Rightarrow> choice list" where
  "handleShuffle rnd choices =
     map fst (sort_key snd (map (\<lambda>(i, v). (v, rnd i)) (enumerate 0 choices)))"

text \<open>The \<^verbatim>\<open>onChange\<close> of the text input of the row of the choice with id \<open>choiceId\<close>.\<close>

definition handleTextChange :: "string \<Rightarrow> string \<Rightarrow> choice list \<Rightarrow> choice list" where
  "handleTextChange choiceId v choices =
     map (\<lambda>c. if c_id c = choiceId then c\<lparr>c_text := v\<rparr> else c) choices"

text \<open>Removing the element at one position, to speak about the order of the others.\<close>

definition remove_nth :: "nat \<Rightarrow> 'a list \<Rightarrow> 'a list" where
  "remove_nth i xs = take i xs @ drop (Suc i) xs"

text \<open>The \<^verbatim>\<open>order\<close> fields form the set \<open>{0, ..., n - 1}\<close>, \<open>n\<close> the length of the list.\<close>

definition dense_orders :: "choice list \<Rightarrow> bool" where
  "dense_orders choices =
     (set (map c_order choices) = set (map (\<lambda>i. Some (int i)) [0..<length choices]))"

text \<open>
  The same of an emitted array that may hold \<^verbatim>\<open>undefined\<close>: every element is a choice,
  and the choices have dense order fields.
\<close>

definition dense_emitted :: "choice option list \<Rightarrow> bool" where
  "dense_emitted ys = (None \<notin> set ys \<and> dense_orders (map the ys))"

section \<open>QuizEditor\<close>

subsection \<open>State, requests and responses\<close>

datatype progress_step = StepQuiz | StepQuestions | StepImages | StepChoices

record save_progress =
  sp_step :: progress_step
  sp_current :: nat
  sp_total :: nat

text \<open>The JSON bodies of the four POST requests, field by field.\<close>

record quiz_body =
  qb_user_id :: string
  qb_title :: string
  qb_language :: string
  qb_type :: string
  qb_status :: quiz_status
  qb_timeLimit :: int
  qb_points :: int

record question_body =
  nb_quiz_id :: "string option"
  nb_type :: string
  nb_text :: string
  nb_explanation :: string

record image_body =
  ib_question_id :: "string option"
  ib_image_url :: string

record choice_body =
  cb_question_id :: "string option"
  cb_text :: string
  cb_is_correct :: bool
  cb_min :: "int option"
  cb_max :: "int option"
  cb_correctValue :: "int option"
  cb_order :: "int option"

text \<open>
  A request is its endpoint with the bearer token and, for DELETE, the quiz id of the URL,
  for POST, the body.
\<close>

datatype request =
    DeleteQuiz string string
  | PostQuiz string quiz_body
  | PostQuestion string question_body
  | PostImage string image_body
  | PostChoice string choice_body

text \<open>
  What \<^verbatim>\<open>await fetch(...)\<close> gives: the promise rejects (a network error), or there is a
  response with its \<^verbatim>\<open>ok\<close> flag and its body. Of the body the code reads one field of
  the parsed JSON (\<^verbatim>\<open>quiz_id\<close>, \<^verbatim>\<open>question_id\<close>): \<^verbatim>\<open>json()\<close> rejects, or the parsed
  value is \<^verbatim>\<open>null\<close> (reading a field of it throws), or the field is read, \<open>None\<close> standing
  for \<^verbatim>\<open>undefined\<close>.
\<close>

datatype payload = Unparsable | Nullish | Parsed "string option"

datatype outcome = Rejected | Response bool payload

text \<open>
  The server is any function from the requests sent so far, the current one last, to the
  outcome of the current one.
\<close>

type_synonym server = "request list \<Rightarrow> outcome"

datatype thrown = Error string | FetchRejected | JsonRejected | TypeError

datatype console_entry = ConsoleError string | ConsoleWarn string

record toast =
  t_title :: string
  t_description :: string
  t_destructive :: bool

text \<open>
  The state of the component (\<^verbatim>\<open>useState\<close>), the auth store, the item
  \<^verbatim>\<open>currentQuizId\<close> of local storage, and what has been sent, logged, shown and passed
  to \<^verbatim>\<open>onSave\<close> so far.
\<close>

record editor =
  quiz :: quiz
  selectedQuestionId :: "string option"
  isSaving :: bool
  saveProgress :: "save_progress option"
  userId :: "string option"
  accessToken :: "string option"
  currentQuizId :: "string option"
  requests :: "request list"
  console :: "console_entry list"
  toasts :: "toast list"
  onSaveCalls :: "quiz list"

subsection \<open>Question handlers\<close>









subsection \<open>handleSave\<close>

text \<open>JavaScript truthiness of a string or null, and the operator \<^verbatim>\<open>||\<close> with a default.\<close>

definition truthy :: "string option \<Rightarrow> bool" where
  "truthy s = (case s of None \<Rightarrow> False | Some v \<Rightarrow> v \<noteq> [])"

definition num_or :: "int option \<Rightarrow> int \<Rightarrow> int" where
  "num_or x d = (case x of None \<Rightarrow> d | Some v \<Rightarrow> if v = 0 then d else v)"

definition str_or :: "string option \<Rightarrow> string \<Rightarrow> string" where
  "str_or x d = (case x of None \<Rightarrow> d | Some v \<Rightarrow> if v = [] then d else v)"

text \<open>\<^verbatim>\<open>localStorage.setItem\<close> stores the string conversion of its argument.\<close>

definition stored_string :: "string option \<Rightarrow> string" where
  "stored_string v = (case v of None \<Rightarrow> ''undefined'' | Some s \<Rightarrow> s)"

definition quiz_body_of :: "string \<Rightarrow> quiz \<Rightarrow> quiz_body" where
  "quiz_body_of uid z =
     \<lparr>qb_user_id = uid, qb_title = quiz_title z, qb_language = quiz_language z,
      qb_type = quiz_type z, qb_status = Draft,
      qb_timeLimit = num_or (quiz_timeLimit z) 30, qb_points = num_or (quiz_points z) 10\<rparr>"

definition question_body_of :: "string option \<Rightarrow> question \<Rightarrow> question_body" where
  "question_body_of quizId q =
     \<lparr>nb_quiz_id = quizId, nb_type = q_type q, nb_text = q_text q,
      nb_explanation = str_or (q_explanation q) []\<rparr>"

definition image_body_of :: "string option \<Rightarrow> string \<Rightarrow> image_body" where
  "image_body_of questionId url = \<lparr>ib_question_id = questionId, ib_image_url = url\<rparr>"

definition choice_body_of :: "string option \<Rightarrow> choice \<Rightarrow> choice_body" where
  "choice_body_of questionId c =
     \<lparr>cb_question_id = questionId, cb_text = c_text c, cb_is_correct = c_isCorrect c,
      cb_min = c_min c, cb_max = c_max c, cb_correctValue = c_correctValue c,
      cb_order = c_order c\<rparr>"

definition fetch :: "server \<Rightarrow> request \<Rightarrow> editor \<Rightarrow> outcome \<times> editor" where
  "fetch srv r st =
     (let st' = st\<lparr>requests := requests st @ [r]\<rparr> in (srv (requests st'), st'))"

definition setSaveProgress :: "progress_step \<Rightarrow> nat \<Rightarrow> nat \<Rightarrow> editor \<Rightarrow> editor" where
  "setSaveProgress s c t st =
     st\<lparr>saveProgress := Some \<lparr>sp_step = s, sp_current = c, sp_total = t\<rparr>\<rparr>"

text \<open>
  The three iterations, from index \<open>j\<close>, \<open>k\<close>, \<open>i\<close> on over the elements still to be sent. The
  result \<open>Some e\<close> is the exception that leaves the iteration. Those over images and choices await
  the fetch and do not look at the response.
\<close>

fun save_images ::
  "server \<Rightarrow> string \<Rightarrow> string option \<Rightarrow> nat \<Rightarrow> nat \<Rightarrow> string list \<Rightarrow> editor
   \<Rightarrow> thrown option \<times> editor" where
  "save_images srv tok questionId n j [] st = (None, st)"
| "save_images srv tok questionId n j (url # urls) st =
     (case fetch srv (PostImage tok (image_body_of questionId url))
             (setSaveProgress StepImages (j + 1) n st) of
        (Rejected, st1) \<Rightarrow> (Some FetchRejected, st1)
      | (Response ok body, st1) \<Rightarrow> save_images srv tok questionId n (j + 1) urls st1)"

fun save_choices ::
  "server \<Rightarrow> string \<Rightarrow> string option \<Rightarrow> nat \<Rightarrow> nat \<Rightarrow> choice list \<Rightarrow> editor
   \<Rightarrow> thrown option \<times> editor" where
  "save_choices srv tok questionId n k [] st = (None, st)"
| "save_choices srv tok questionId n k (c # cs) st =
     (case fetch srv (PostChoice tok (choice_body_of questionId c))
             (setSaveProgress StepChoices (k + 1) n st) of
        (Rejected, st1) \<Rightarrow> (Some FetchRejected, st1)
      | (Response ok body, st1) \<Rightarrow> save_choices srv tok questionId n (k + 1) cs st1)"

definition save_question_parts ::
  "server \<Rightarrow> string \<Rightarrow> string option \<Rightarrow> question \<Rightarrow> editor \<Rightarrow> thrown option \<times> editor" where
  "save_question_parts srv tok questionId question st =
     (case (case q_imageUrls question of
              None \<Rightarrow> (None, st)
            | Some urls \<Rightarrow>
                if length urls > 0
                then save_images srv tok questionId (length urls) 0 urls
                       (setSaveProgress StepImages 0 (length urls) st)
                else (None, st)) of
        (Some e, st1) \<Rightarrow> (Some e, st1)
      | (None, st1) \<Rightarrow>
          save_choices srv tok questionId (length (q_choices question)) 0 (q_choices question)
            (setSaveProgress StepChoices 0 (length (q_choices question)) st1))"

fun save_questions ::
  "server \<Rightarrow> string \<Rightarrow> string option \<Rightarrow> nat \<Rightarrow> nat \<Rightarrow> question list \<Rightarrow> editor
   \<Rightarrow> thrown option \<times> editor" where
  "save_questions srv tok quizId n i [] st = (None, st)"
| "save_questions srv tok quizId n i (question # qs) st =
     (case fetch srv (PostQuestion tok (question_body_of quizId question))
             (setSaveProgress StepQuestions (i + 1) n st) of
        (Rejected, st1) \<Rightarrow> (Some FetchRejected, st1)
      | (Response ok body, st1) \<Rightarrow>
          if \<not> ok then (Some (Error (''Failed to save question: '' @ q_id question)), st1)
          else (case body of
                  Unparsable \<Rightarrow> (Some JsonRejected, st1)
                | Nullish \<Rightarrow> (Some TypeError, st1)
                | Parsed questionId \<Rightarrow>
                    (case save_question_parts srv tok questionId question st1 of
                       (Some e, st2) \<Rightarrow> (Some e, st2)
                     | (None, st2) \<Rightarrow> save_questions srv tok quizId n (i + 1) qs st2)))"

text \<open>
  Step 1: the delete of the existing quiz, with its own try and catch around the fetch
  and the check of the response.
\<close>

definition delete_step :: "server \<Rightarrow> string \<Rightarrow> editor \<Rightarrow> editor" where
  "delete_step srv tok st =
     (let existingQuizId = currentQuizId st;
          st1 = setSaveProgress StepQuiz 0 1 st
      in if truthy existingQuizId
         then (case fetch srv (DeleteQuiz tok (the existingQuizId)) st1 of
                 (Rejected, st2) \<Rightarrow>
                   st2\<lparr>console := console st2 @ [ConsoleError ''Error deleting existing quiz:'']\<rparr>
               | (Response ok body, st2) \<Rightarrow>
                   if \<not> ok
                   then st2\<lparr>console := console st2 @
                               [ConsoleWarn ''Failed to delete existing quiz'']\<rparr>
                   else st2)
         else st1)"

definition success_toast :: toast where
  "success_toast = \<lparr>t_title = ''Success'', t_description = ''Quiz saved successfully'',
                    t_destructive = False\<rparr>"

definition error_toast :: toast where
  "error_toast = \<lparr>t_title = ''Error'',
                  t_description = ''Failed to save quiz. Please try again.'',
                  t_destructive = True\<rparr>"

text \<open>
  The body of the outer try block: step 1, step 2 (the quiz), step 3 (the questions and
  their parts), and the update of the state. \<open>z\<close> is the \<^verbatim>\<open>quiz\<close> of the render in
  which handleSave was created, \<open>now\<close> the value of \<^verbatim>\<open>new Date()\<close>.
\<close>

definition try_save ::
  "server \<Rightarrow> nat \<Rightarrow> string \<Rightarrow> string \<Rightarrow> quiz \<Rightarrow> editor \<Rightarrow> (thrown + quiz) \<times> editor" where
  "try_save srv now uid tok z st =
     (case fetch srv (PostQuiz tok (quiz_body_of uid z))
             (setSaveProgress StepQuiz 1 1 (delete_step srv tok st)) of
        (Rejected, st4) \<Rightarrow> (Inl FetchRejected, st4)
      | (Response ok body, st4) \<Rightarrow>
          if \<not> ok then (Inl (Error ''Failed to save quiz''), st4)
          else (case body of
                  Unparsable \<Rightarrow> (Inl JsonRejected, st4)
                | Nullish \<Rightarrow> (Inl TypeError, st4)
                | Parsed quizId \<Rightarrow>
                    (case save_questions srv tok quizId (length (quiz_questions z)) 0
                            (quiz_questions z)
                            (setSaveProgress StepQuestions 0 (length (quiz_questions z))
                               (st4\<lparr>currentQuizId := Some (stored_string quizId)\<rparr>)) of
                       (Some e, st7) \<Rightarrow> (Inl e, st7)
                     | (None, st7) \<Rightarrow>
                         (let updatedQuiz = z\<lparr>quiz_id := quizId, quiz_updatedAt := now,
                                                quiz_status := Draft\<rparr>
                          in (Inr updatedQuiz,
                              st7\<lparr>quiz := updatedQuiz,
                                  onSaveCalls := onSaveCalls st7 @ [updatedQuiz],
                                  toasts := toasts st7 @ [success_toast]\<rparr>)))))"

text \<open>
  The promise of the async function: fulfilled with \<^verbatim>\<open>undefined\<close> (the early return) or
  with the updated quiz, or rejected with what was thrown.
\<close>

datatype save_result = Returned "quiz option" | Threw thrown

definition finally_save :: "editor \<Rightarrow> editor" where
  "finally_save st = st\<lparr>isSaving := False, saveProgress := None\<rparr>"

definition handleSave :: "server \<Rightarrow> nat \<Rightarrow> editor \<Rightarrow> save_result \<times> editor" where
  "handleSave srv now st =
     (if \<not> truthy (userId st) \<or> \<not> truthy (accessToken st)
      then (Returned None, st\<lparr>console := console st @ [ConsoleError ''User not authenticated'']\<rparr>)
      else (case try_save srv now (the (userId st)) (the (accessToken st)) (quiz st)
                   (st\<lparr>isSaving := True\<rparr>) of
              (Inr updatedQuiz, st1) \<Rightarrow> (Returned (Some updatedQuiz), finally_save st1)
            | (Inl e, st1) \<Rightarrow>
                (Threw e,
                 finally_save
                   (st1\<lparr>console := console st1 @ [ConsoleError ''Error saving quiz:''],
                        toasts := toasts st1 @ [error_toast]\<rparr>))))"

subsection \<open>The request sequence, as the specification words it\<close>

definition is_delete :: "request \<Rightarrow> bool" where
  "is_delete r = (case r of DeleteQuiz _ _ \<Rightarrow> True | _ \<Rightarrow> False)"

definition image_requests :: "string \<Rightarrow> string option \<Rightarrow> question \<Rightarrow> request list" where
  "image_requests tok questionId q =
     map (\<lambda>url. PostImage tok (image_body_of questionId url))
       (case q_imageUrls q of None \<Rightarrow> [] | Some urls \<Rightarrow> urls)"

definition choice_requests :: "string \<Rightarrow> string option \<Rightarrow> question \<Rightarrow> request list" where
  "choice_requests tok questionId q =
     map (\<lambda>c. PostChoice tok (choice_body_of questionId c)) (q_choices q)"

definition question_requests ::
  "string \<Rightarrow> string option \<Rightarrow> question \<times> string option \<Rightarrow> request list" where
  "question_requests tok quizId p =
     (case p of (q, questionId) \<Rightarrow>
        PostQuestion tok (question_body_of quizId q) #
        image_requests tok questionId q @ choice_requests tok questionId q)"

definition delete_requests :: "string \<Rightarrow> string option \<Rightarrow> request list" where
  "delete_requests tok existingQuizId =
     (if truthy existingQuizId then [DeleteQuiz tok (the existingQuizId)] else [])"

text \<open>
  The outcomes of a request after which handleSave sends nothing more: a rejected fetch
  of a create, and for the quiz and question creates a response that is not ok or whose
  body cannot be read.
\<close>

definition create_refused :: "outcome \<Rightarrow> bool" where
  "create_refused out =
     (case out of
        Rejected \<Rightarrow> True
      | Response ok body \<Rightarrow> \<not> ok \<or> (case body of Parsed _ \<Rightarrow> False | _ \<Rightarrow> True))"

definition aborting :: "request \<Rightarrow> outcome \<Rightarrow> bool" where
  "aborting r out =
     (case r of
        DeleteQuiz _ _ \<Rightarrow> False
      | PostQuiz _ _ \<Rightarrow> create_refused out
      | PostQuestion _ _ \<Rightarrow> create_refused out
      | PostImage _ _ \<Rightarrow> out = Rejected
      | PostChoice _ _ \<Rightarrow> out = Rejected)"

subsection \<open>Notions for the proofs about handleSave\<close>

text \<open>Between two states only the list of requests and the progress display differ.\<close>

definition only_sent :: "editor \<Rightarrow> editor \<Rightarrow> bool" where
  "only_sent st st' = (st' = st\<lparr>requests := requests st', saveProgress := saveProgress st'\<rparr>)"

text \<open>The creates of step 3: a question, an image or a choice.\<close>

definition is_part_create :: "request \<Rightarrow> bool" where
  "is_part_create r =
     (case r of DeleteQuiz _ _ \<Rightarrow> False | PostQuiz _ _ \<Rightarrow> False | _ \<Rightarrow> True)"

text \<open>
  What a loop of step 3 has done when it ends in \<open>st'\<close> with \<open>r\<close>: it has only sent
  creates of step 3, all of one of the sequences in \<open>F\<close> when it ends normally, and
  otherwise at least one, the last one with an outcome that aborts.
\<close>

definition sent_post ::
  "server \<Rightarrow> editor \<Rightarrow> thrown option \<Rightarrow> editor \<Rightarrow> request list set \<Rightarrow> bool" where
  "sent_post srv st r st' F =
     (only_sent st st' \<and>
      (\<exists>new. requests st' = requests st @ new \<and> (\<forall>x\<in>set new. is_part_create x) \<and>
         (case r of
            None \<Rightarrow> new \<in> F
          | Some e \<Rightarrow> new \<noteq> [] \<and> aborting (last new) (srv (requests st')))))"

section \<open>Sample data\<close>

text \<open>A small quiz, an editor state and four servers, for the concrete instances below.\<close>

definition sample_choice :: "string \<Rightarrow> int \<Rightarrow> choice" where
  "sample_choice i n = \<lparr>c_id = i, c_text = i, c_isCorrect = True, c_min = None, c_max = None,
             c_correctValue = None, c_order = Some n\<rparr>"

definition sample_question :: question where
  "sample_question = \<lparr>q_id = ''q1'', q_type = ''puzzle'', q_text = ''Sort'',
     q_explanation = None, q_imageUrls = Some [''img''],
     q_choices = [sample_choice ''a'' 0, sample_choice ''b'' 1]\<rparr>"

definition sample_quiz :: quiz where
  "sample_quiz = \<lparr>quiz_id = Some ''local'', quiz_title = ''Quiz'', quiz_language = ''en'',
     quiz_type = ''puzzle'', quiz_status = Published, quiz_timeLimit = Some 0,
     quiz_points = None, quiz_updatedAt = 0, quiz_questions = [sample_question]\<rparr>"

definition sample_editor :: editor where
  "sample_editor = \<lparr>quiz = sample_quiz, selectedQuestionId = None, isSaving = False,
     saveProgress = None, userId = Some ''u'', accessToken = Some ''t'',
     currentQuizId = Some ''7'', requests = [], console = [], toasts = [],
     onSaveCalls = []\<rparr>"

definition server_ok :: server where
  "server_ok log = Response True (Parsed (Some ''9''))"

definition server_parts_fail :: server where
  "server_parts_fail log =
     (case last log of
        PostImage _ _ \<Rightarrow> Response False Unparsable
      | PostChoice _ _ \<Rightarrow> Response False Unparsable
      | _ \<Rightarrow> Response True (Parsed (Some ''9'')))"

definition server_questions_fail :: server where
  "server_questions_fail log =
     (case last log of
        PostQuestion _ _ \<Rightarrow> Response False Unparsable
      | _ \<Rightarrow> Response True (Parsed (Some ''9'')))"

definition server_delete_down :: server where
  "server_delete_down log =
     (case last log of
        DeleteQuiz _ _ \<Rightarrow> Rejected
      | _ \<Rightarrow> Response True (Parsed (Some ''9'')))"

section \<open>Properties of PuzzleEditor\<close>

lemma handleShuffle_mset: "mset (handleShuffle rnd choices) = mset choices"
proof -
  have "mset (handleShuffle rnd choices) =
        image_mset fst (mset (map (\<lambda>(i, v). (v, rnd i)) (enumerate 0 choices)))"
    by (simp add: handleShuffle_def)
  also have "\<dots> = mset (map (fst \<circ> (\<lambda>(i, v). (v, rnd i))) (enumerate 0 choices))"
    by (simp add: multiset.map_comp)
  also have "fst \<circ> (\<lambda>(i, v). (v, rnd i)) = (snd :: nat \<times> choice \<Rightarrow> choice)"
    by (auto simp: fun_eq_iff)
  also have "map snd (enumerate 0 choices) = choices"
    by simp
  finally show ?thesis .
qed

lemma handleDrop_valid:
  assumes "d < length cs"
  shows "handleDrop (Some d) k cs = Some (map Some (splice_insert k (cs ! d) (remove_nth d cs)))"
proof -
  have "take 1 (drop d (map Some cs)) = [Some (cs ! d)]"
    using assms Cons_nth_drop_Suc [of d "map Some cs"] by (cases "drop d (map Some cs)") auto
  then show ?thesis
    by (simp add: handleDrop_def splice_delete_def splice_insert_def remove_nth_def
        take_map drop_map)
qed

lemma mset_remove_nth:
  "d < length cs \<Longrightarrow> add_mset (cs ! d) (mset (remove_nth d cs)) = mset cs"
proof -
  assume a: "d < length cs"
  have "cs = take d cs @ cs ! d # drop (Suc d) cs"
    using a by (simp add: id_take_nth_drop[symmetric])
  then have "mset cs = mset (take d cs @ cs ! d # drop (Suc d) cs)" by simp
  then show ?thesis by (simp add: remove_nth_def)
qed

lemma mset_splice_insert: "mset (splice_insert k x xs) = add_mset x (mset xs)"
proof -
  have "mset (take k xs) + mset (drop k xs) = mset xs"
    by (metis append_take_drop_id mset_append)
  then show ?thesis by (simp add: splice_insert_def)
qed

lemma handleDrop_mset:
  "d < length cs \<Longrightarrow> mset (splice_insert k (cs ! d) (remove_nth d cs)) = mset cs"
  by (simp add: mset_splice_insert mset_remove_nth)

lemma dense_orders_mset:
  assumes "mset ys = mset xs"
  shows "dense_orders ys = dense_orders xs"
proof -
  have "set (map c_order ys) = set (map c_order xs)"
    using assms by (metis mset_map set_mset_mset)
  moreover have "length ys = length xs" using assms by (rule mset_eq_length)
  ultimately show ?thesis by (simp add: dense_orders_def)
qed

lemma dense_handleAddChoice:
  "dense_orders cs \<Longrightarrow> dense_orders (handleAddChoice uuid cs)"
  by (simp add: dense_orders_def handleAddChoice_def)

lemma order_of_reindexed:
  "map c_order (map (\<lambda>(index, choice). choice\<lparr>c_order := Some (int index)\<rparr>) ps) =
   map (\<lambda>i. Some (int i)) (map fst ps)"
  by (induction ps) auto

lemma dense_handleDeleteChoice: "dense_orders (handleDeleteChoice choiceId cs)"
  unfolding dense_orders_def handleDeleteChoice_def order_of_reindexed
  by simp

lemma dense_handleTextChange:
  "dense_orders (handleTextChange choiceId v cs) = dense_orders cs"
proof -
  have "map c_order (handleTextChange choiceId v cs) = map c_order cs"
    by (simp add: handleTextChange_def o_def if_distrib cong: if_cong)
  then show ?thesis by (simp add: dense_orders_def handleTextChange_def)
qed

lemma nth_splice_insert: "k \<le> length xs \<Longrightarrow> splice_insert k x xs ! k = x"
  by (simp add: splice_insert_def nth_append)

lemma remove_nth_splice_insert: "k \<le> length xs \<Longrightarrow> remove_nth k (splice_insert k x xs) = xs"
  by (simp add: splice_insert_def remove_nth_def min_def)

lemma length_remove_nth: "d < length xs \<Longrightarrow> length (remove_nth d xs) = length xs - 1"
  by (simp add: remove_nth_def)


text \<open>
  C6. Whatever values the random number generator returns, the list that handleShuffle
  emits is a permutation of its input: the same multiset of (unmodified) choices and so
  the same length.
\<close>

theorem handleShuffle_permutation:
  "mset (handleShuffle rnd choices) = mset choices \<and>
   length (handleShuffle rnd choices) = length choices"
  using handleShuffle_mset [of rnd choices] mset_eq_length by auto

text \<open>
  C10. With no drag in progress handleDrop returns without calling onChange. With a
  dragged index and a drop index that are positions of the list, it emits a list of the
  same length in which the dragged element is at the drop index, and from which removing
  that position leaves the input list without the dragged position: the other elements
  keep their order.
\<close>

theorem handleDrop_moves:
  assumes "draggedIndex < length choices" and "dropIndex < length choices"
  shows "handleDrop None dropIndex choices = None \<and>
    (\<exists>ys. handleDrop (Some draggedIndex) dropIndex choices = Some (map Some ys) \<and>
       length ys = length choices \<and>
       ys ! dropIndex = choices ! draggedIndex \<and>
       remove_nth dropIndex ys = remove_nth draggedIndex choices)"
proof -
  let ?rest = "remove_nth draggedIndex choices"
  let ?ys = "splice_insert dropIndex (choices ! draggedIndex) ?rest"
  have k: "dropIndex \<le> length ?rest"
    using assms by (simp add: length_remove_nth)
  have "handleDrop (Some draggedIndex) dropIndex choices = Some (map Some ?ys)"
    using assms(1) by (rule handleDrop_valid)
  moreover have "length ?ys = length choices"
    using handleDrop_mset [OF assms(1), of dropIndex] by (rule mset_eq_length)
  moreover have "?ys ! dropIndex = choices ! draggedIndex"
    using k by (rule nth_splice_insert)
  moreover have "remove_nth dropIndex ?ys = ?rest"
    using k by (rule remove_nth_splice_insert)
  moreover have "handleDrop None dropIndex choices = None"
    by (simp add: handleDrop_def)
  ultimately show ?thesis by blast
qed

theorem handleDrop_moves_witness:
  "(0::nat) < length [sample_choice ''a'' 0, sample_choice ''b'' 1, sample_choice ''c'' 2] \<and>
   (2::nat) < length [sample_choice ''a'' 0, sample_choice ''b'' 1, sample_choice ''c'' 2] \<and>
   handleDrop (Some 0) 2 [sample_choice ''a'' 0, sample_choice ''b'' 1, sample_choice ''c'' 2] =
     Some [Some (sample_choice ''b'' 1), Some (sample_choice ''c'' 2),
           Some (sample_choice ''a'' 0)]"
  using handleDrop_moves [of 0 "[sample_choice ''a'' 0, sample_choice ''b'' 1,
      sample_choice ''c'' 2]" 2]
  by (simp add: handleDrop_def splice_delete_def splice_insert_def)

lemma dense_emitted_defined: "dense_emitted (map Some ys) = dense_orders ys"
  by (simp add: dense_emitted_def o_def)

text \<open>
  C1, as amended. When the order fields of a choice list are the set of the numbers below
  its length, the same holds of the list that handleAddChoice, handleDeleteChoice,
  handleShuffle and the edit of a text emit, whatever the list, the empty one included.
  With no drag in progress handleDrop emits nothing. For a dragged index that is a
  position of the list, handleDrop emits a list of choices of the same length whose
  order fields are again that set. (Nothing is said of a dragged index beyond the end.)
\<close>

theorem dense_orders_preserved:
  assumes "dense_orders choices"
  shows "dense_orders (handleAddChoice uuid choices) \<and>
    dense_orders (handleDeleteChoice choiceId choices) \<and>
    dense_orders (handleShuffle rnd choices) \<and>
    dense_orders (handleTextChange choiceId v choices) \<and>
    handleDrop None dropIndex choices = None \<and>
    (draggedIndex < length choices \<longrightarrow>
       (\<exists>ys. handleDrop (Some draggedIndex) dropIndex choices = Some (map Some ys) \<and>
          length ys = length choices \<and> dense_orders ys \<and> dense_emitted (map Some ys)))"
proof -
  let ?ys = "splice_insert dropIndex (choices ! draggedIndex) (remove_nth draggedIndex choices)"
  have drop: "\<exists>ys. handleDrop (Some draggedIndex) dropIndex choices = Some (map Some ys) \<and>
       length ys = length choices \<and> dense_orders ys \<and> dense_emitted (map Some ys)"
    if valid: "draggedIndex < length choices"
  proof -
    have m: "mset ?ys = mset choices"
      using valid by (rule handleDrop_mset)
    have "handleDrop (Some draggedIndex) dropIndex choices = Some (map Some ?ys)"
      using valid by (rule handleDrop_valid)
    moreover have "length ?ys = length choices"
      using m by (rule mset_eq_length)
    moreover have "dense_orders ?ys"
      using dense_orders_mset [OF m] assms by simp
    moreover from this have "dense_emitted (map Some ?ys)"
      by (simp only: dense_emitted_defined)
    ultimately show ?thesis by blast
  qed
  have "dense_orders (handleShuffle rnd choices)"
    using dense_orders_mset [OF handleShuffle_mset, of rnd choices] assms by simp
  moreover have "dense_orders (handleAddChoice uuid choices)"
    using assms by (rule dense_handleAddChoice)
  moreover have "dense_orders (handleTextChange choiceId v choices)"
    using assms by (simp add: dense_handleTextChange)
  moreover have "handleDrop None dropIndex choices = None"
    by (simp add: handleDrop_def)
  ultimately show ?thesis
    using drop dense_handleDeleteChoice [of choiceId choices] by blast
qed

theorem dense_orders_preserved_witness:
  "dense_orders [] \<and>
   handleAddChoice ''n'' [] =
     [\<lparr>c_id = ''n'', c_text = [], c_isCorrect = True, c_min = None, c_max = None,
       c_correctValue = None, c_order = Some 0\<rparr>] \<and>
   dense_orders (handleAddChoice ''n'' []) \<and>
   handleShuffle (\<lambda>i. 5 - i) [] = [] \<and>
   dense_orders [sample_choice ''a'' 0, sample_choice ''b'' 1] \<and>
   (0::nat) < length [sample_choice ''a'' 0, sample_choice ''b'' 1] \<and>
   map c_order (handleAddChoice ''n'' [sample_choice ''a'' 0, sample_choice ''b'' 1]) =
     [Some 0, Some 1, Some 2] \<and>
   handleDeleteChoice ''a'' [sample_choice ''a'' 0, sample_choice ''b'' 1] =
     [sample_choice ''b'' 0] \<and>
   handleDrop (Some 0) 1 [sample_choice ''a'' 0, sample_choice ''b'' 1] =
     Some [Some (sample_choice ''b'' 1), Some (sample_choice ''a'' 0)] \<and>
   dense_emitted [Some (sample_choice ''b'' 1), Some (sample_choice ''a'' 0)] \<and>
   handleShuffle (\<lambda>i. 5 - i) [sample_choice ''a'' 0, sample_choice ''b'' 1] =
     [sample_choice ''b'' 1, sample_choice ''a'' 0] \<and>
   dense_orders (handleShuffle (\<lambda>i. 5 - i) [sample_choice ''a'' 0, sample_choice ''b'' 1])"
  using dense_orders_preserved [of "[sample_choice ''a'' 0, sample_choice ''b'' 1]"
      "''n''" "''a''" "\<lambda>i. 5 - i" "''x''" 1 0]
    dense_orders_preserved [of "[]" "''n''" "''a''" "\<lambda>i. 5 - i" "''x''" 1 0]
  by (simp add: dense_orders_def dense_emitted_def handleAddChoice_def handleDeleteChoice_def
      handleDrop_def handleShuffle_def splice_delete_def splice_insert_def sample_choice_def
      upt_rec [of 0] upt_rec [of 1] upt_rec [of 2] insert_commute)

text \<open>
  The claim as it was stated fails for handleDrop with a dragged index beyond the end of
  a list with dense order fields: nothing is removed, and \<^verbatim>\<open>undefined\<close> is inserted at
  the drop index, so the emitted array is longer and is not a list of choices.
\<close>

theorem handleDrop_stale_index_counterexample:
  "dense_orders [sample_choice ''a'' 0, sample_choice ''b'' 1] \<and>
   handleDrop (Some 2) 0 [sample_choice ''a'' 0, sample_choice ''b'' 1] =
     Some [None, Some (sample_choice ''a'' 0), Some (sample_choice ''b'' 1)] \<and>
   \<not> dense_emitted [None, Some (sample_choice ''a'' 0), Some (sample_choice ''b'' 1)]"
  by (simp add: dense_orders_def dense_emitted_def handleDrop_def splice_delete_def
      splice_insert_def sample_choice_def upt_rec [of 0] upt_rec [of 1] upt_rec [of 2]
      insert_commute)

section \<open>Properties of handleSave\<close>

lemma fetch_eq: "fetch srv r st = (srv (requests st @ [r]), st\<lparr>requests := requests st @ [r]\<rparr>)"
  by (simp add: fetch_def)

lemma only_sent_refl: "only_sent st st"
  by (simp add: only_sent_def)

lemma only_sent_trans: "only_sent a b \<Longrightarrow> only_sent b c \<Longrightarrow> only_sent a c"
  unfolding only_sent_def by (cases a, cases b, cases c) simp

lemma sent_post_nil: "sent_post srv st None st {[]}"
  by (simp add: sent_post_def only_sent_refl)

lemma sent_post_progress: "sent_post srv st None (setSaveProgress s c t st) {[]}"
  by (simp add: sent_post_def only_sent_def setSaveProgress_def)

lemma sent_post_fetch:
  assumes "is_part_create rq"
  shows "sent_post srv st None (st\<lparr>requests := requests st @ [rq]\<rparr>) {[rq]}"
  using assms by (simp add: sent_post_def only_sent_def)

lemma sent_post_fetch_abort:
  assumes "is_part_create rq" and "aborting rq (srv (requests st @ [rq]))"
  shows "sent_post srv st (Some e) (st\<lparr>requests := requests st @ [rq]\<rparr>) F"
  using assms by (simp add: sent_post_def only_sent_def)

lemma sent_post_fail: "sent_post srv st (Some e) st1 F1 \<Longrightarrow> sent_post srv st (Some e) st1 F"
  by (simp add: sent_post_def)

lemma sent_post_seq:
  assumes "sent_post srv st None st1 F1" and "sent_post srv st1 r st2 F2"
  shows "sent_post srv st r st2 {a @ b |a b. a \<in> F1 \<and> b \<in> F2}"
proof -
  from assms(1) obtain n1 where
    a: "only_sent st st1" "requests st1 = requests st @ n1" "\<forall>x\<in>set n1. is_part_create x" "n1 \<in> F1"
    by (auto simp: sent_post_def)
  from assms(2) obtain n2 where
    b: "only_sent st1 st2" "requests st2 = requests st1 @ n2" "\<forall>x\<in>set n2. is_part_create x"
    "(case r of None \<Rightarrow> n2 \<in> F2 | Some e \<Rightarrow> n2 \<noteq> [] \<and> aborting (last n2) (srv (requests st2)))"
    by (auto simp: sent_post_def)
  have "requests st2 = requests st @ (n1 @ n2)"
    using a(2) b(2) by simp
  moreover have "\<forall>x\<in>set (n1 @ n2). is_part_create x"
    using a(3) b(3) by auto
  moreover have "(case r of None \<Rightarrow> n1 @ n2 \<in> {a @ b |a b. a \<in> F1 \<and> b \<in> F2}
                  | Some e \<Rightarrow> n1 @ n2 \<noteq> [] \<and> aborting (last (n1 @ n2)) (srv (requests st2)))"
    using a(4) b(4) by (cases r) auto
  ultimately show ?thesis
    unfolding sent_post_def using only_sent_trans [OF a(1) b(1)] by blast
qed

lemma sent_post_weaken: "sent_post srv st r st' F \<Longrightarrow> F \<subseteq> G \<Longrightarrow> sent_post srv st r st' G"
  unfolding sent_post_def by (cases r) auto

lemma sent_post_step:
  assumes "sent_post srv st None st1 {a}" and "sent_post srv st1 r st2 {b}"
  shows "sent_post srv st r st2 {a @ b}"
  using sent_post_seq [OF assms] by (rule sent_post_weaken) auto

lemma save_choices_post:
  "save_choices srv tok qid n k cs st = (r, st') \<Longrightarrow>
   sent_post srv st r st' {map (\<lambda>c. PostChoice tok (choice_body_of qid c)) cs}"
proof (induction cs arbitrary: k st)
  case Nil
  then show ?case by (simp add: sent_post_nil)
next
  case (Cons c cs)
  let ?rq = "PostChoice tok (choice_body_of qid c)"
  let ?st0 = "setSaveProgress StepChoices (k + 1) n st"
  let ?st1 = "?st0\<lparr>requests := requests ?st0 @ [?rq]\<rparr>"
  have pc: "is_part_create ?rq" by (simp add: is_part_create_def)
  have p0: "sent_post srv st None ?st0 {[]}" by (rule sent_post_progress)
  show ?case
  proof (cases "srv (requests ?st1)")
    case Rejected
    then have "r = Some FetchRejected" and "st' = ?st1"
      using Cons.prems by (simp_all add: fetch_eq)
    moreover have "sent_post srv ?st0 (Some FetchRejected) ?st1 {[]}"
      using pc Rejected by (intro sent_post_fetch_abort) (simp_all add: aborting_def)
    ultimately show ?thesis
      using sent_post_step [OF p0] sent_post_fail by blast
  next
    case (Response ok body)
    then have rec: "save_choices srv tok qid n (k + 1) cs ?st1 = (r, st')"
      using Cons.prems by (simp add: fetch_eq)
    have "sent_post srv st None ?st1 {[] @ [?rq]}"
      using p0 sent_post_fetch [OF pc] by (rule sent_post_step)
    from sent_post_step [OF this Cons.IH [OF rec]] show ?thesis by simp
  qed
qed

lemma save_images_post:
  "save_images srv tok qid n j urls st = (r, st') \<Longrightarrow>
   sent_post srv st r st' {map (\<lambda>url. PostImage tok (image_body_of qid url)) urls}"
proof (induction urls arbitrary: j st)
  case Nil
  then show ?case by (simp add: sent_post_nil)
next
  case (Cons u urls)
  let ?rq = "PostImage tok (image_body_of qid u)"
  let ?st0 = "setSaveProgress StepImages (j + 1) n st"
  let ?st1 = "?st0\<lparr>requests := requests ?st0 @ [?rq]\<rparr>"
  have pc: "is_part_create ?rq" by (simp add: is_part_create_def)
  have p0: "sent_post srv st None ?st0 {[]}" by (rule sent_post_progress)
  show ?case
  proof (cases "srv (requests ?st1)")
    case Rejected
    then have "r = Some FetchRejected" and "st' = ?st1"
      using Cons.prems by (simp_all add: fetch_eq)
    moreover have "sent_post srv ?st0 (Some FetchRejected) ?st1 {[]}"
      using pc Rejected by (intro sent_post_fetch_abort) (simp_all add: aborting_def)
    ultimately show ?thesis
      using sent_post_step [OF p0] sent_post_fail by blast
  next
    case (Response ok body)
    then have rec: "save_images srv tok qid n (j + 1) urls ?st1 = (r, st')"
      using Cons.prems by (simp add: fetch_eq)
    have "sent_post srv st None ?st1 {[] @ [?rq]}"
      using p0 sent_post_fetch [OF pc] by (rule sent_post_step)
    from sent_post_step [OF this Cons.IH [OF rec]] show ?thesis by simp
  qed
qed

lemma save_question_parts_post:
  assumes "save_question_parts srv tok qid q st = (r, st')"
  shows "sent_post srv st r st' {image_requests tok qid q @ choice_requests tok qid q}"
proof -
  let ?imgs = "(case q_imageUrls q of
              None \<Rightarrow> (None, st)
            | Some urls \<Rightarrow>
                if length urls > 0
                then save_images srv tok qid (length urls) 0 urls
                       (setSaveProgress StepImages 0 (length urls) st)
                else (None, st))"
  obtain r1 st1 where i: "?imgs = (r1, st1)" by (cases ?imgs)
  have p1: "sent_post srv st r1 st1 {image_requests tok qid q}"
  proof (cases "q_imageUrls q")
    case None
    then show ?thesis using i by (auto simp: image_requests_def sent_post_nil)
  next
    case (Some urls)
    show ?thesis
    proof (cases "urls = []")
      case True
      then show ?thesis using i Some by (auto simp: image_requests_def sent_post_nil)
    next
      case False
      then have "save_images srv tok qid (length urls) 0 urls
                       (setSaveProgress StepImages 0 (length urls) st) = (r1, st1)"
        using i Some by simp
      from sent_post_step [OF sent_post_progress save_images_post [OF this]]
      show ?thesis using Some by (simp add: image_requests_def)
    qed
  qed
  show ?thesis
  proof (cases r1)
    case (Some e)
    then have "r = Some e" "st' = st1"
      using assms i by (simp_all add: save_question_parts_def)
    then show ?thesis using p1 Some sent_post_fail by blast
  next
    case None
    let ?n = "length (q_choices q)"
    from None have "save_choices srv tok qid ?n 0 (q_choices q)
            (setSaveProgress StepChoices 0 ?n st1) = (r, st')"
      using assms i by (simp add: save_question_parts_def)
    from sent_post_step [OF sent_post_progress save_choices_post [OF this]]
    have "sent_post srv st1 r st' {choice_requests tok qid q}"
      by (simp add: choice_requests_def)
    from sent_post_step [OF _ this] p1 None show ?thesis by blast
  qed
qed


lemma save_questions_post:
  "save_questions srv tok quizId n i qs st = (r, st') \<Longrightarrow>
   sent_post srv st r st'
     {concat (map (question_requests tok quizId) (zip qs qids)) |qids. length qids = length qs}"
proof (induction qs arbitrary: i st)
  case Nil
  then show ?case using sent_post_nil [of srv st] by (auto elim: sent_post_weaken)
next
  case (Cons q qs)
  let ?F = "\<lambda>qs. {concat (map (question_requests tok quizId) (zip qs qids)) |qids. length qids = length qs}"
  let ?rq = "PostQuestion tok (question_body_of quizId q)"
  let ?st0 = "setSaveProgress StepQuestions (i + 1) n st"
  let ?st1 = "?st0\<lparr>requests := requests ?st0 @ [?rq]\<rparr>"
  have pc: "is_part_create ?rq" by (simp add: is_part_create_def)
  have p0: "sent_post srv st None ?st0 {[]}" by (rule sent_post_progress)
  have abort: "sent_post srv st (Some e) ?st1 (?F (q # qs))"
    if "create_refused (srv (requests ?st1))" for e
  proof -
    have "sent_post srv ?st0 (Some e) ?st1 {[]}"
      using pc that by (intro sent_post_fetch_abort) (simp_all add: aborting_def)
    from sent_post_step [OF p0 this] show ?thesis by (rule sent_post_fail)
  qed
  have p1: "sent_post srv st None ?st1 {[?rq]}"
    using sent_post_step [OF p0 sent_post_fetch [OF pc]] by simp
  show ?case
  proof (cases "srv (requests ?st1)")
    case Rejected
    then have "r = Some FetchRejected" and "st' = ?st1"
      using Cons.prems by (simp_all add: fetch_eq)
    then show ?thesis using abort [of FetchRejected] Rejected by (simp add: create_refused_def)
  next
    case (Response ok body)
    show ?thesis
    proof (cases "ok \<and> (\<exists>v. body = Parsed v)")
      case False
      then have cr: "create_refused (srv (requests ?st1))"
        using Response by (cases body) (auto simp: create_refused_def)
      from False obtain e where "r = Some e" and "st' = ?st1"
        using Cons.prems Response by (cases body) (auto simp: fetch_eq split: if_splits)
      then show ?thesis using abort [OF cr, of e] by simp
    next
      case True
      then obtain questionId where ok: "ok" and body: "body = Parsed questionId" by blast
      obtain r2 st2 where parts: "save_question_parts srv tok questionId q ?st1 = (r2, st2)"
        by (cases "save_question_parts srv tok questionId q ?st1")
      let ?parts = "image_requests tok questionId q @ choice_requests tok questionId q"
      have p2: "sent_post srv st r2 st2 {[?rq] @ ?parts}"
        using p1 save_question_parts_post [OF parts] by (rule sent_post_step)
      show ?thesis
      proof (cases r2)
        case (Some e)
        then have "r = Some e" and "st' = st2"
          using Cons.prems Response ok body parts by (simp_all add: fetch_eq)
        then show ?thesis using p2 Some sent_post_fail by blast
      next
        case None
        then have rec: "save_questions srv tok quizId n (i + 1) qs st2 = (r, st')"
          using Cons.prems Response ok body parts by (simp add: fetch_eq)
        have "sent_post srv st r st' {a @ b |a b. a \<in> {[?rq] @ ?parts} \<and> b \<in> ?F qs}"
          using p2 None Cons.IH [OF rec] sent_post_seq by blast
        moreover have "{a @ b |a b. a \<in> {[?rq] @ ?parts} \<and> b \<in> ?F qs} \<subseteq> ?F (q # qs)"
        proof
          fix x assume "x \<in> {a @ b |a b. a \<in> {[?rq] @ ?parts} \<and> b \<in> ?F qs}"
          then obtain qids where l: "length qids = length qs"
            and x: "x = ([?rq] @ ?parts) @ concat (map (question_requests tok quizId) (zip qs qids))"
            by blast
          have "x = concat (map (question_requests tok quizId) (zip (q # qs) (questionId # qids)))"
            using x by (simp add: question_requests_def)
          moreover have "length (questionId # qids) = length (q # qs)" using l by simp
          ultimately show "x \<in> ?F (q # qs)" by blast
        qed
        ultimately show ?thesis by (rule sent_post_weaken)
      qed
    qed
  qed
qed


lemma only_sent_fields:
  assumes "only_sent a b"
  shows "quiz b = quiz a" and "toasts b = toasts a" and "console b = console a"
    and "currentQuizId b = currentQuizId a" and "onSaveCalls b = onSaveCalls a"
proof -
  have "b = a\<lparr>requests := requests b, saveProgress := saveProgress b\<rparr>"
    using assms by (simp add: only_sent_def)
  then have e: "quiz b = quiz (a\<lparr>requests := requests b, saveProgress := saveProgress b\<rparr>)"
    "toasts b = toasts (a\<lparr>requests := requests b, saveProgress := saveProgress b\<rparr>)"
    "console b = console (a\<lparr>requests := requests b, saveProgress := saveProgress b\<rparr>)"
    "currentQuizId b = currentQuizId (a\<lparr>requests := requests b, saveProgress := saveProgress b\<rparr>)"
    "onSaveCalls b = onSaveCalls (a\<lparr>requests := requests b, saveProgress := saveProgress b\<rparr>)"
    by simp_all
  show "quiz b = quiz a" using e(1) by simp
  show "toasts b = toasts a" using e(2) by simp
  show "console b = console a" using e(3) by simp
  show "currentQuizId b = currentQuizId a" using e(4) by simp
  show "onSaveCalls b = onSaveCalls a" using e(5) by simp
qed

lemma delete_step_requests:
  "requests (delete_step srv tok st) = requests st @ delete_requests tok (currentQuizId st)"
  by (simp add: delete_step_def delete_requests_def fetch_eq setSaveProgress_def Let_def
      split: outcome.splits)

lemma delete_step_fields:
  "quiz (delete_step srv tok st) = quiz st"
  "toasts (delete_step srv tok st) = toasts st"
  "onSaveCalls (delete_step srv tok st) = onSaveCalls st"
  "currentQuizId (delete_step srv tok st) = currentQuizId st"
  by (simp_all add: delete_step_def fetch_eq setSaveProgress_def Let_def split: outcome.splits)

lemma delete_step_console:
  assumes "truthy (currentQuizId st)"
  shows "console (delete_step srv tok st) =
     console st @
     (case srv (requests st @ [DeleteQuiz tok (the (currentQuizId st))]) of
        Rejected \<Rightarrow> [ConsoleError ''Error deleting existing quiz:'']
      | Response ok body \<Rightarrow> if ok then [] else [ConsoleWarn ''Failed to delete existing quiz''])"
  using assms
  by (simp add: delete_step_def fetch_eq setSaveProgress_def Let_def split: outcome.splits)

lemma try_save_post:
  assumes "try_save srv now uid tok z st = (res, st')"
  shows "\<exists>new. requests st' =
            requests st @ delete_requests tok (currentQuizId st) @
            PostQuiz tok (quiz_body_of uid z) # new \<and>
          (\<forall>x\<in>set new. is_part_create x) \<and>
          console st' = console (delete_step srv tok st) \<and>
          (case res of
             Inl e \<Rightarrow>
               aborting (last (PostQuiz tok (quiz_body_of uid z) # new)) (srv (requests st')) \<and>
               toasts st' = toasts st \<and> quiz st' = quiz st \<and> onSaveCalls st' = onSaveCalls st
           | Inr u \<Rightarrow>
               (\<exists>quizId qids.
                  srv (requests st @ delete_requests tok (currentQuizId st) @
                       [PostQuiz tok (quiz_body_of uid z)]) = Response True (Parsed quizId) \<and>
                  length qids = length (quiz_questions z) \<and>
                  new = concat (map (question_requests tok quizId) (zip (quiz_questions z) qids)) \<and>
                  u = z\<lparr>quiz_id := quizId, quiz_updatedAt := now, quiz_status := Draft\<rparr> \<and>
                  quiz st' = u \<and> toasts st' = toasts st @ [success_toast] \<and>
                  onSaveCalls st' = onSaveCalls st @ [u] \<and>
                  currentQuizId st' = Some (stored_string quizId)))"
proof -
  let ?rq = "PostQuiz tok (quiz_body_of uid z)"
  let ?del = "delete_requests tok (currentQuizId st)"
  define st3 where "st3 = setSaveProgress StepQuiz 1 1 (delete_step srv tok st)"
  define st4 where "st4 = st3\<lparr>requests := requests st3 @ [?rq]\<rparr>"
  have r4: "requests st4 = requests st @ ?del @ [?rq]"
    by (simp add: st4_def st3_def setSaveProgress_def delete_step_requests)
  have f4: "console st4 = console (delete_step srv tok st)" "toasts st4 = toasts st"
    "quiz st4 = quiz st" "onSaveCalls st4 = onSaveCalls st"
    by (simp_all add: st4_def st3_def setSaveProgress_def delete_step_fields)
  have ts: "try_save srv now uid tok z st =
     (case (srv (requests st4), st4) of
        (Rejected, st4) \<Rightarrow> (Inl FetchRejected, st4)
      | (Response ok body, st4) \<Rightarrow>
          if \<not> ok then (Inl (Error ''Failed to save quiz''), st4)
          else (case body of
                  Unparsable \<Rightarrow> (Inl JsonRejected, st4)
                | Nullish \<Rightarrow> (Inl TypeError, st4)
                | Parsed quizId \<Rightarrow>
                    (case save_questions srv tok quizId (length (quiz_questions z)) 0
                            (quiz_questions z)
                            (setSaveProgress StepQuestions 0 (length (quiz_questions z))
                               (st4\<lparr>currentQuizId := Some (stored_string quizId)\<rparr>)) of
                       (Some e, st7) \<Rightarrow> (Inl e, st7)
                     | (None, st7) \<Rightarrow>
                         (let updatedQuiz = z\<lparr>quiz_id := quizId, quiz_updatedAt := now,
                                                quiz_status := Draft\<rparr>
                          in (Inr updatedQuiz,
                              st7\<lparr>quiz := updatedQuiz,
                                  onSaveCalls := onSaveCalls st7 @ [updatedQuiz],
                                  toasts := toasts st7 @ [success_toast]\<rparr>)))))"
    unfolding try_save_def fetch_eq st4_def st3_def by simp
  have refused: ?thesis if "create_refused (srv (requests st4))" and "st' = st4" and "res = Inl e" for e
  proof -
    have "requests st' = requests st @ ?del @ ?rq # []" using that r4 by simp
    moreover have "aborting (last (?rq # [])) (srv (requests st'))"
      using that by (simp add: aborting_def)
    ultimately show ?thesis using that f4 by (intro exI [of _ "[]"]) simp
  qed
  show ?thesis
  proof (cases "srv (requests st4)")
    case Rejected
    then have "res = Inl FetchRejected" "st' = st4" using assms ts by simp_all
    then show ?thesis using refused Rejected by (simp add: create_refused_def)
  next
    case (Response ok body)
    show ?thesis
    proof (cases "ok \<and> (\<exists>v. body = Parsed v)")
      case False
      then have cr: "create_refused (srv (requests st4))"
        using Response by (cases body) (auto simp: create_refused_def)
      from False obtain e where "res = Inl e" and "st' = st4"
        using assms ts Response by (cases body) (auto split: if_splits)
      then show ?thesis using refused cr by blast
    next
      case True
      then obtain quizId where ok: "ok" and body: "body = Parsed quizId" by blast
      define st6 where "st6 = setSaveProgress StepQuestions 0 (length (quiz_questions z))
                               (st4\<lparr>currentQuizId := Some (stored_string quizId)\<rparr>)"
      obtain r st7 where sq: "save_questions srv tok quizId (length (quiz_questions z)) 0
                            (quiz_questions z) st6 = (r, st7)"
        by (cases "save_questions srv tok quizId (length (quiz_questions z)) 0 (quiz_questions z) st6")
      have r6: "requests st6 = requests st4" and f6: "console st6 = console st4"
        "toasts st6 = toasts st4" "quiz st6 = quiz st4" "onSaveCalls st6 = onSaveCalls st4"
        "currentQuizId st6 = Some (stored_string quizId)"
        by (simp_all add: st6_def setSaveProgress_def)
      from save_questions_post [OF sq] obtain new where
        os: "only_sent st6 st7" and rn: "requests st7 = requests st6 @ new"
        and pc: "\<forall>x\<in>set new. is_part_create x"
        and cs: "(case r of None \<Rightarrow> new \<in> {concat (map (question_requests tok quizId) (zip (quiz_questions z) qids)) |qids. length qids = length (quiz_questions z)}
                 | Some e \<Rightarrow> new \<noteq> [] \<and> aborting (last new) (srv (requests st7)))"
        unfolding sent_post_def by blast
      note f7 = only_sent_fields [OF os]
      have r7: "requests st7 = requests st @ ?del @ ?rq # new"
        using rn r6 r4 by simp
      show ?thesis
      proof (cases r)
        case (Some e)
        then have res: "res = Inl e" and st': "st' = st7"
          using assms ts Response ok body sq by (simp_all add: st6_def)
        have "aborting (last (?rq # new)) (srv (requests st'))"
          using cs Some st' by simp
        then show ?thesis
          using res st' r7 pc f7 f6 f4 by (intro exI [of _ new]) simp
      next
        case None
        let ?u = "z\<lparr>quiz_id := quizId, quiz_updatedAt := now, quiz_status := Draft\<rparr>"
        from None have res: "res = Inr ?u"
          and st': "st' = st7\<lparr>quiz := ?u, onSaveCalls := onSaveCalls st7 @ [?u],
                                  toasts := toasts st7 @ [success_toast]\<rparr>"
          using assms ts Response ok body sq by (simp_all add: st6_def Let_def)
        from cs None obtain qids where l: "length qids = length (quiz_questions z)"
          and n: "new = concat (map (question_requests tok quizId) (zip (quiz_questions z) qids))"
          by auto
        have srv4: "srv (requests st @ ?del @ [?rq]) = Response True (Parsed quizId)"
          using Response ok body r4 by simp
        have "\<exists>quizId qids.
                  srv (requests st @ ?del @ [?rq]) = Response True (Parsed quizId) \<and>
                  length qids = length (quiz_questions z) \<and>
                  new = concat (map (question_requests tok quizId) (zip (quiz_questions z) qids)) \<and>
                  ?u = z\<lparr>quiz_id := quizId, quiz_updatedAt := now, quiz_status := Draft\<rparr> \<and>
                  quiz st' = ?u \<and> toasts st' = toasts st @ [success_toast] \<and>
                  onSaveCalls st' = onSaveCalls st @ [?u] \<and>
                  currentQuizId st' = Some (stored_string quizId)"
          using srv4 l n st' f7 f6 f4 by (intro exI [of _ quizId] exI [of _ qids]) simp
        then show ?thesis
          using res st' r7 pc f7 f6 f4 by (intro exI [of _ new]) simp
      qed
    qed
  qed
qed


lemma handleSave_authenticated:
  assumes "truthy (userId st)" and "truthy (accessToken st)"
  obtains res st1 where
    "try_save srv now (the (userId st)) (the (accessToken st)) (quiz st) (st\<lparr>isSaving := True\<rparr>)
       = (res, st1)"
    and "handleSave srv now st =
       (case res of
          Inr updatedQuiz \<Rightarrow> (Returned (Some updatedQuiz), finally_save st1)
        | Inl e \<Rightarrow>
            (Threw e,
             finally_save
               (st1\<lparr>console := console st1 @ [ConsoleError ''Error saving quiz:''],
                    toasts := toasts st1 @ [error_toast]\<rparr>)))"
proof -
  obtain res st1 where t: "try_save srv now (the (userId st)) (the (accessToken st)) (quiz st)
       (st\<lparr>isSaving := True\<rparr>) = (res, st1)"
    by (cases "try_save srv now (the (userId st)) (the (accessToken st)) (quiz st)
       (st\<lparr>isSaving := True\<rparr>)")
  show thesis
    using assms t by (intro that [of res st1]) (simp_all add: handleSave_def split: sum.splits)
qed

lemma handleSave_unauth:
  assumes "\<not> truthy (userId st) \<or> \<not> truthy (accessToken st)"
  shows "handleSave srv now st =
    (Returned None, st\<lparr>console := console st @ [ConsoleError ''User not authenticated'']\<rparr>)"
  using assms by (auto simp: handleSave_def)

lemmas sample_defs = sample_choice_def sample_question_def sample_quiz_def sample_editor_def
  server_ok_def server_parts_fail_def server_questions_fail_def server_delete_down_def

lemmas save_defs = handleSave_def try_save_def delete_step_def fetch_def setSaveProgress_def
  save_question_parts_def finally_save_def truthy_def num_or_def str_or_def stored_string_def
  quiz_body_of_def question_body_of_def image_body_of_def choice_body_of_def
  success_toast_def error_toast_def Let_def

text \<open>
  C3. When handleSave returns the updated quiz, the requests it has sent are, in this
  order: the DELETE of the stored quiz id if there is one, the POST of the quiz, and then
  for each question in list order the POST of the question, one POST per image URL in
  order and one POST per choice in order. Each request is sent after the response to the
  one before it has arrived: the quiz id in the bodies is the one the server returned for
  the POST of the quiz.
\<close>

theorem handleSave_request_sequence:
  assumes "fst (handleSave srv now st) = Returned (Some u)"
  shows "\<exists>quizId qids.
     length qids = length (quiz_questions (quiz st)) \<and>
     srv (requests st @ delete_requests (the (accessToken st)) (currentQuizId st) @
          [PostQuiz (the (accessToken st)) (quiz_body_of (the (userId st)) (quiz st))]) =
       Response True (Parsed quizId) \<and>
     requests (snd (handleSave srv now st)) =
       requests st @
       delete_requests (the (accessToken st)) (currentQuizId st) @
       [PostQuiz (the (accessToken st)) (quiz_body_of (the (userId st)) (quiz st))] @
       concat (map (question_requests (the (accessToken st)) quizId)
                 (zip (quiz_questions (quiz st)) qids))"
proof -
  have "\<not> (\<not> truthy (userId st) \<or> \<not> truthy (accessToken st))"
  proof
    assume "\<not> truthy (userId st) \<or> \<not> truthy (accessToken st)"
    from handleSave_unauth [OF this, of srv now] assms show False by simp
  qed
  then have auth: "truthy (userId st)" "truthy (accessToken st)" by simp_all
  from handleSave_authenticated [OF auth, of srv now] obtain res st1 where
    t: "try_save srv now (the (userId st)) (the (accessToken st)) (quiz st)
          (st\<lparr>isSaving := True\<rparr>) = (res, st1)"
    and h: "handleSave srv now st =
       (case res of
          Inr updatedQuiz \<Rightarrow> (Returned (Some updatedQuiz), finally_save st1)
        | Inl e \<Rightarrow>
            (Threw e,
             finally_save
               (st1\<lparr>console := console st1 @ [ConsoleError ''Error saving quiz:''],
                    toasts := toasts st1 @ [error_toast]\<rparr>)))"
    by blast
  from assms h have res: "res = Inr u" by (cases res) simp_all
  have rq: "requests (snd (handleSave srv now st)) = requests st1"
    using h res by (simp add: finally_save_def)
  from try_save_post [OF t] res show ?thesis
    unfolding rq by auto
qed

theorem handleSave_request_sequence_witness:
  "fst (handleSave server_ok 5 sample_editor) =
     Returned (Some (sample_quiz\<lparr>quiz_id := Some ''9'', quiz_updatedAt := 5,
                                 quiz_status := Draft\<rparr>)) \<and>
   requests (snd (handleSave server_ok 5 sample_editor)) =
     [DeleteQuiz ''t'' ''7'',
      PostQuiz ''t'' (quiz_body_of ''u'' sample_quiz),
      PostQuestion ''t'' (question_body_of (Some ''9'') sample_question),
      PostImage ''t'' (image_body_of (Some ''9'') ''img''),
      PostChoice ''t'' (choice_body_of (Some ''9'') (sample_choice ''a'' 0)),
      PostChoice ''t'' (choice_body_of (Some ''9'') (sample_choice ''b'' 1))]"
  using handleSave_request_sequence [of server_ok 5 sample_editor
      "sample_quiz\<lparr>quiz_id := Some ''9'', quiz_updatedAt := 5, quiz_status := Draft\<rparr>"]
  by (simp add: save_defs sample_defs)



text \<open>
  C4. When a quiz id is stored, handleSave first sends the DELETE of that quiz and then,
  whatever the outcome of the DELETE, the POST of the new quiz. A rejected fetch and a
  response that is not ok are written to the console; when handleSave throws, it is the
  outcome of a create that made it throw, never that of the DELETE.
\<close>

theorem handleSave_delete_best_effort:
  assumes "truthy (userId st)" and "truthy (accessToken st)" and "truthy (currentQuizId st)"
  shows "(\<exists>rest. requests (snd (handleSave srv now st)) =
            requests st @
            DeleteQuiz (the (accessToken st)) (the (currentQuizId st)) #
            PostQuiz (the (accessToken st)) (quiz_body_of (the (userId st)) (quiz st)) # rest) \<and>
         (srv (requests st @ [DeleteQuiz (the (accessToken st)) (the (currentQuizId st))])
            = Rejected \<longrightarrow>
          ConsoleError ''Error deleting existing quiz:''
            \<in> set (console (snd (handleSave srv now st)))) \<and>
         (\<forall>body. srv (requests st @ [DeleteQuiz (the (accessToken st)) (the (currentQuizId st))])
            = Response False body \<longrightarrow>
          ConsoleWarn ''Failed to delete existing quiz''
            \<in> set (console (snd (handleSave srv now st)))) \<and>
         (\<forall>e. fst (handleSave srv now st) = Threw e \<longrightarrow>
            \<not> is_delete (last (requests (snd (handleSave srv now st)))) \<and>
            aborting (last (requests (snd (handleSave srv now st))))
              (srv (requests (snd (handleSave srv now st)))))"
proof -
  let ?tok = "the (accessToken st)"
  let ?st0 = "st\<lparr>isSaving := True\<rparr>"
  let ?rq = "PostQuiz ?tok (quiz_body_of (the (userId st)) (quiz st))"
  from handleSave_authenticated [OF assms(1,2), of srv now] obtain res st1 where
    t: "try_save srv now (the (userId st)) ?tok (quiz st) ?st0 = (res, st1)"
    and h: "handleSave srv now st =
       (case res of
          Inr updatedQuiz \<Rightarrow> (Returned (Some updatedQuiz), finally_save st1)
        | Inl e \<Rightarrow>
            (Threw e,
             finally_save
               (st1\<lparr>console := console st1 @ [ConsoleError ''Error saving quiz:''],
                    toasts := toasts st1 @ [error_toast]\<rparr>)))"
    by blast
  have rq: "requests (snd (handleSave srv now st)) = requests st1"
    using h by (cases res) (simp_all add: finally_save_def)
  have del: "delete_requests ?tok (currentQuizId ?st0) = [DeleteQuiz ?tok (the (currentQuizId st))]"
    using assms(3) by (simp add: delete_requests_def)
  from try_save_post [OF t] obtain new where
    r1: "requests st1 = requests st @ DeleteQuiz ?tok (the (currentQuizId st)) # ?rq # new"
    and c1: "console st1 = console (delete_step srv ?tok ?st0)"
    and ab: "case res of Inl e \<Rightarrow> aborting (last (?rq # new)) (srv (requests st1)) | Inr u \<Rightarrow> True"
    unfolding del by (cases res) auto
  have cons: "set (console st1) \<subseteq> set (console (snd (handleSave srv now st)))"
    using h by (cases res) (auto simp: finally_save_def)
  have c2: "console st1 = console st @
     (case srv (requests st @ [DeleteQuiz ?tok (the (currentQuizId st))]) of
        Rejected \<Rightarrow> [ConsoleError ''Error deleting existing quiz:'']
      | Response ok body \<Rightarrow> if ok then [] else [ConsoleWarn ''Failed to delete existing quiz''])"
    using delete_step_console [of ?st0 srv ?tok] assms(3) c1 by simp
  have "\<exists>rest. requests (snd (handleSave srv now st)) =
            requests st @ DeleteQuiz ?tok (the (currentQuizId st)) # ?rq # rest"
    using rq r1 by simp
  moreover have "srv (requests st @ [DeleteQuiz ?tok (the (currentQuizId st))]) = Rejected \<longrightarrow>
          ConsoleError ''Error deleting existing quiz:'' \<in> set (console (snd (handleSave srv now st)))"
    using c2 cons by auto
  moreover have "\<forall>body. srv (requests st @ [DeleteQuiz ?tok (the (currentQuizId st))])
            = Response False body \<longrightarrow>
          ConsoleWarn ''Failed to delete existing quiz'' \<in> set (console (snd (handleSave srv now st)))"
    using c2 cons by auto
  moreover have "\<forall>e. fst (handleSave srv now st) = Threw e \<longrightarrow>
            \<not> is_delete (last (requests (snd (handleSave srv now st)))) \<and>
            aborting (last (requests (snd (handleSave srv now st))))
              (srv (requests (snd (handleSave srv now st))))"
  proof (intro allI impI)
    fix e assume "fst (handleSave srv now st) = Threw e"
    then obtain e' where "res = Inl e'" using h by (cases res) simp_all
    then have a: "aborting (last (?rq # new)) (srv (requests st1))" using ab by simp
    have l: "last (requests st1) = last (?rq # new)" using r1 by simp
    have "\<not> is_delete (last (?rq # new))"
      using a by (cases "last (?rq # new)") (simp_all add: aborting_def is_delete_def)
    then show "\<not> is_delete (last (requests (snd (handleSave srv now st)))) \<and>
            aborting (last (requests (snd (handleSave srv now st))))
              (srv (requests (snd (handleSave srv now st))))"
      using a l rq by simp
  qed
  ultimately show ?thesis by blast
qed

theorem handleSave_delete_best_effort_witness:
  "truthy (userId sample_editor) \<and> truthy (accessToken sample_editor) \<and>
   truthy (currentQuizId sample_editor) \<and>
   server_delete_down (requests sample_editor @ [DeleteQuiz ''t'' ''7'']) = Rejected \<and>
   take 2 (requests (snd (handleSave server_delete_down 5 sample_editor))) =
     [DeleteQuiz ''t'' ''7'', PostQuiz ''t'' (quiz_body_of ''u'' sample_quiz)] \<and>
   console (snd (handleSave server_delete_down 5 sample_editor)) =
     [ConsoleError ''Error deleting existing quiz:''] \<and>
   fst (handleSave server_delete_down 5 sample_editor) =
     Returned (Some (sample_quiz\<lparr>quiz_id := Some ''9'', quiz_updatedAt := 5,
                                 quiz_status := Draft\<rparr>))"
  using handleSave_delete_best_effort [of sample_editor server_delete_down 5]
  by (simp add: save_defs sample_defs)




text \<open>
  C8. Without a user id or without an access token handleSave returns at once: no
  request is sent, and the quiz, local storage, the saving flag and the progress display
  are as before. Only the console has a new entry.
\<close>

theorem handleSave_unauthenticated:
  assumes "\<not> truthy (userId st) \<or> \<not> truthy (accessToken st)"
  shows "fst (handleSave srv now st) = Returned None \<and>
         requests (snd (handleSave srv now st)) = requests st \<and>
         quiz (snd (handleSave srv now st)) = quiz st \<and>
         currentQuizId (snd (handleSave srv now st)) = currentQuizId st \<and>
         isSaving (snd (handleSave srv now st)) = isSaving st \<and>
         saveProgress (snd (handleSave srv now st)) = saveProgress st \<and>
         toasts (snd (handleSave srv now st)) = toasts st \<and>
         onSaveCalls (snd (handleSave srv now st)) = onSaveCalls st \<and>
         snd (handleSave srv now st) =
           st\<lparr>console := console st @ [ConsoleError ''User not authenticated'']\<rparr>"
  using handleSave_unauth [OF assms, of srv now] by simp

theorem handleSave_unauthenticated_witness:
  "\<not> truthy (userId (sample_editor\<lparr>userId := None\<rparr>)) \<and>
   handleSave server_ok 5 (sample_editor\<lparr>userId := None\<rparr>) =
     (Returned None,
      sample_editor\<lparr>userId := None, console := [ConsoleError ''User not authenticated'']\<rparr>)"
  using handleSave_unauthenticated [of "sample_editor\<lparr>userId := None\<rparr>" server_ok 5]
  by (simp add: save_defs sample_defs)

text \<open>
  C9. The body of every POST of the quiz that handleSave sends has status draft, the
  time limit of the quiz or 30 when that is absent or zero, and its points or 10 when
  they are absent or zero; an authenticated run sends such a POST. When handleSave
  returns the updated quiz, it is the quiz with the id the server returned, the status
  draft and the new date, and it is the quiz of the state.
\<close>

theorem handleSave_quiz_body_draft:
  "(\<forall>tok b. PostQuiz tok b \<in> set (drop (length (requests st))
                                   (requests (snd (handleSave srv now st)))) \<longrightarrow>
      qb_status b = Draft \<and>
      qb_timeLimit b =
        (case quiz_timeLimit (quiz st) of None \<Rightarrow> 30 | Some t \<Rightarrow> if t = 0 then 30 else t) \<and>
      qb_points b =
        (case quiz_points (quiz st) of None \<Rightarrow> 10 | Some p \<Rightarrow> if p = 0 then 10 else p)) \<and>
   (truthy (userId st) \<and> truthy (accessToken st) \<longrightarrow>
      (\<exists>b. PostQuiz (the (accessToken st)) b
              \<in> set (drop (length (requests st)) (requests (snd (handleSave srv now st)))))) \<and>
   (\<forall>u. fst (handleSave srv now st) = Returned (Some u) \<longrightarrow>
      (\<exists>quizId.
         srv (requests st @ delete_requests (the (accessToken st)) (currentQuizId st) @
              [PostQuiz (the (accessToken st)) (quiz_body_of (the (userId st)) (quiz st))]) =
           Response True (Parsed quizId) \<and>
         u = (quiz st)\<lparr>quiz_id := quizId, quiz_updatedAt := now, quiz_status := Draft\<rparr> \<and>
         quiz (snd (handleSave srv now st)) = u))"
proof (cases "truthy (userId st) \<and> truthy (accessToken st)")
  case False
  then have "handleSave srv now st =
    (Returned None, st\<lparr>console := console st @ [ConsoleError ''User not authenticated'']\<rparr>)"
    by (intro handleSave_unauth) simp
  then show ?thesis using False by simp
next
  case True
  let ?tok = "the (accessToken st)"
  let ?st0 = "st\<lparr>isSaving := True\<rparr>"
  let ?rq = "PostQuiz ?tok (quiz_body_of (the (userId st)) (quiz st))"
  let ?del = "delete_requests ?tok (currentQuizId st)"
  from True have auth: "truthy (userId st)" "truthy (accessToken st)" by simp_all
  from handleSave_authenticated [OF auth, of srv now] obtain res st1 where
    t: "try_save srv now (the (userId st)) ?tok (quiz st) ?st0 = (res, st1)"
    and h: "handleSave srv now st =
       (case res of
          Inr updatedQuiz \<Rightarrow> (Returned (Some updatedQuiz), finally_save st1)
        | Inl e \<Rightarrow>
            (Threw e,
             finally_save
               (st1\<lparr>console := console st1 @ [ConsoleError ''Error saving quiz:''],
                    toasts := toasts st1 @ [error_toast]\<rparr>)))"
    by blast
  have rq: "requests (snd (handleSave srv now st)) = requests st1"
    using h by (cases res) (simp_all add: finally_save_def)
  from try_save_post [OF t] obtain new where
    r1: "requests st1 = requests st @ ?del @ ?rq # new"
    and pc: "\<forall>x\<in>set new. is_part_create x"
    and cs: "case res of Inl e \<Rightarrow> True
             | Inr u \<Rightarrow> \<exists>quizId. srv (requests st @ ?del @ [?rq]) = Response True (Parsed quizId) \<and>
                 u = (quiz st)\<lparr>quiz_id := quizId, quiz_updatedAt := now, quiz_status := Draft\<rparr> \<and>
                 quiz st1 = u"
    by (cases res) auto
  have dr: "drop (length (requests st)) (requests (snd (handleSave srv now st))) = ?del @ ?rq # new"
    using rq r1 by simp
  have only: "b = quiz_body_of (the (userId st)) (quiz st)"
    if "PostQuiz tok b \<in> set (?del @ ?rq # new)" for tok b
    using that pc by (auto simp: delete_requests_def is_part_create_def split: if_splits)
  have body: "qb_status b = Draft \<and>
      qb_timeLimit b =
        (case quiz_timeLimit (quiz st) of None \<Rightarrow> 30 | Some t \<Rightarrow> if t = 0 then 30 else t) \<and>
      qb_points b =
        (case quiz_points (quiz st) of None \<Rightarrow> 10 | Some p \<Rightarrow> if p = 0 then 10 else p)"
    if "PostQuiz tok b \<in> set (?del @ ?rq # new)" for tok b
    unfolding only [OF that] by (simp add: quiz_body_of_def num_or_def)
  have sent: "\<exists>b. PostQuiz ?tok b \<in> set (?del @ ?rq # new)"
    by auto
  have succ: "\<exists>quizId. srv (requests st @ ?del @ [?rq]) = Response True (Parsed quizId) \<and>
         u = (quiz st)\<lparr>quiz_id := quizId, quiz_updatedAt := now, quiz_status := Draft\<rparr> \<and>
         quiz (snd (handleSave srv now st)) = u"
    if "fst (handleSave srv now st) = Returned (Some u)" for u
  proof -
    from that h have res: "res = Inr u" by (cases res) simp_all
    then have "quiz (snd (handleSave srv now st)) = quiz st1"
      using h by (simp add: finally_save_def)
    then show ?thesis using cs res by simp
  qed
  show ?thesis
    unfolding dr using body sent succ by blast
qed

theorem handleSave_quiz_body_draft_witness:
  "quiz_status (quiz sample_editor) = Published \<and>
   quiz_timeLimit (quiz sample_editor) = Some 0 \<and>
   quiz_points (quiz sample_editor) = None \<and>
   PostQuiz ''t'' \<lparr>qb_user_id = ''u'', qb_title = ''Quiz'', qb_language = ''en'',
                    qb_type = ''puzzle'', qb_status = Draft, qb_timeLimit = 30,
                    qb_points = 10\<rparr>
     \<in> set (requests (snd (handleSave server_ok 5 sample_editor))) \<and>
   quiz (snd (handleSave server_ok 5 sample_editor)) =
     sample_quiz\<lparr>quiz_id := Some ''9'', quiz_updatedAt := 5, quiz_status := Draft\<rparr>"
  using handleSave_quiz_body_draft [of sample_editor server_ok 5]
  by (simp add: save_defs sample_defs)

text \<open>
  C2. The creates of an image and of a choice are awaited, but their responses are not
  looked at. Here the server answers every such create with a response that is not ok:
  handleSave goes on to send the remaining creates, returns the updated quiz and shows
  the success toast, where a failed create of the quiz or of a question aborts.
\<close>

theorem handleSave_choice_failure_ignored:
  "server_parts_fail
     [DeleteQuiz ''t'' ''7'',
      PostQuiz ''t'' (quiz_body_of ''u'' sample_quiz),
      PostQuestion ''t'' (question_body_of (Some ''9'') sample_question),
      PostImage ''t'' (image_body_of (Some ''9'') ''img'')]
     = Response False Unparsable \<and>
   server_parts_fail
     [DeleteQuiz ''t'' ''7'',
      PostQuiz ''t'' (quiz_body_of ''u'' sample_quiz),
      PostQuestion ''t'' (question_body_of (Some ''9'') sample_question),
      PostImage ''t'' (image_body_of (Some ''9'') ''img''),
      PostChoice ''t'' (choice_body_of (Some ''9'') (sample_choice ''a'' 0))]
     = Response False Unparsable \<and>
   requests (snd (handleSave server_parts_fail 5 sample_editor)) =
     [DeleteQuiz ''t'' ''7'',
      PostQuiz ''t'' (quiz_body_of ''u'' sample_quiz),
      PostQuestion ''t'' (question_body_of (Some ''9'') sample_question),
      PostImage ''t'' (image_body_of (Some ''9'') ''img''),
      PostChoice ''t'' (choice_body_of (Some ''9'') (sample_choice ''a'' 0)),
      PostChoice ''t'' (choice_body_of (Some ''9'') (sample_choice ''b'' 1))] \<and>
   fst (handleSave server_parts_fail 5 sample_editor) =
     Returned (Some (sample_quiz\<lparr>quiz_id := Some ''9'', quiz_updatedAt := 5,
                                 quiz_status := Draft\<rparr>)) \<and>
   toasts (snd (handleSave server_parts_fail 5 sample_editor)) = [success_toast]"
  by (simp add: save_defs sample_defs)

theorem handleSave_choice_failure_ignored_witness:
  "truthy (userId sample_editor) \<and> truthy (accessToken sample_editor) \<and>
   length (requests (snd (handleSave server_parts_fail 5 sample_editor))) = 6 \<and>
   error_toast \<notin> set (toasts (snd (handleSave server_parts_fail 5 sample_editor))) \<and>
   (\<forall>e. fst (handleSave server_parts_fail 5 sample_editor) \<noteq> Threw e)"
  using handleSave_choice_failure_ignored
  by (simp add: truthy_def sample_editor_def success_toast_def error_toast_def)

section \<open>Properties of the ids\<close>









lemma mset_concat_map:
  "mset (concat (map f zs)) = (\<Sum>\<^sub># (image_mset (\<lambda>z. mset (f z)) (mset zs)))"
  by (induction zs) simp_all

lemma distinct_concat_mset:
  assumes "mset ys = mset xs"
  shows "distinct (concat (map f ys)) = distinct (concat (map f xs))"
proof -
  have "mset (concat (map f ys)) = mset (concat (map f xs))"
    unfolding mset_concat_map assms ..
  then show ?thesis by (rule mset_eq_imp_distinct_iff)
qed












end
